theory Spec2Isabelle
  imports Main
begin

section \<open>The incremental JSON parser of basic\_parser.hpp\<close>

text \<open>
  The theory embeds \<^verbatim>\<open>include/boost/beast/_experimental/json/impl/basic_parser.hpp\<close>:
  the continuation stack with its four accessors, the single-buffer \<^verbatim>\<open>write\<close> with
  its \<^verbatim>\<open>goto loop\<close> dispatch, the buffer-sequence \<^verbatim>\<open>write\<close> and \<^verbatim>\<open>write_eof\<close>.
  Names follow the source; a prime marks a name that Isabelle reserves
  (\<^verbatim>\<open>value\<close>, \<^verbatim>\<open>end\<close>, \<^verbatim>\<open>syntax\<close>), that a library constant or type has
  (\<^verbatim>\<open>member\<close>, \<^verbatim>\<open>string\<close>), or that ends in an underscore (\<^verbatim>\<open>array_\<close>).
\<close>

subsection \<open>Data\<close>

text \<open>The enumerators of \<^verbatim>\<open>state\<close>, as the switch of \<^verbatim>\<open>write\<close> uses them.\<close>

datatype state =
    json | element | ws | value'
  | object | member' | members | colon
  | array' | string' | number
  | true_1 | true_2 | true_3 | true_4
  | false_1 | false_2 | false_3 | false_4 | false_5
  | null_1 | null_2 | null_3 | null_4
  | end'

text \<open>
  An \<^verbatim>\<open>error_code\<close> is tested only by \<^verbatim>\<open>if(ec)\<close>, which is true for every value
  but zero: \<open>no_error\<close> is the value zero, \<open>syntax'\<close> is \<^verbatim>\<open>error::syntax\<close>, and
  \<open>sink_error n\<close> stands for any other code a callback of the derived class stores.
\<close>

datatype error_code = no_error | syntax' | sink_error nat

text \<open>The member functions of the derived class that \<^verbatim>\<open>write\<close> calls through \<^verbatim>\<open>impl()\<close>.\<close>

datatype callback =
    on_object_begin | on_object_end | on_array_begin | on_string_begin
  | on_true | on_false | on_null

text \<open>
  The derived class is a parameter: \<open>D cb e s\<close> is what the callback \<open>cb\<close> does when it
  is called with the error slot holding \<open>e\<close> and the derived object in state \<open>s\<close>; it
  returns the error slot and the object as the callback leaves them.
\<close>

type_synonym 's derived = "callback \<Rightarrow> error_code \<Rightarrow> 's \<Rightarrow> error_code \<times> 's"

text \<open>
  What ends a call without a return: a failed \<^verbatim>\<open>BOOST_ASSERT\<close>, and a read of
  \<^verbatim>\<open>*p\<close> with \<^verbatim>\<open>p\<close> at \<^verbatim>\<open>p1\<close>, one past the last byte of the buffer.
\<close>

datatype fault = assertion_failed | read_past_end

text \<open>
  A frame is the parser object during and after a call of \<^verbatim>\<open>write\<close>:
  \<^item> \<open>st_stack\<close> is \<^verbatim>\<open>st_stack_\<close>, written with \<^verbatim>\<open>back()\<close> as the head of the list;
  \<^item> \<open>unread\<close> is the cursor: the bytes of \<^verbatim>\<open>[p, p1)\<close>, so \<^verbatim>\<open>p < p1\<close> is
    \<open>unread \<noteq> []\<close>, \<^verbatim>\<open>*p\<close> is the head, \<^verbatim>\<open>++p\<close> drops it, and \<^verbatim>\<open>p + k <= p1\<close> is
    \<open>k \<le> length unread\<close>;
  \<^item> \<open>ec\<close> is the caller's error slot;
  \<^item> \<open>sink\<close> is the state of the derived object;
  \<^item> \<open>calls\<close> records the callbacks made so far, oldest first (it is not read by the
    parser).
\<close>

record 's frame =
  st_stack :: "state list"
  unread :: string
  ec :: error_code
  sink :: 's
  calls :: "callback list"

text \<open>The three results of one pass through the switch.\<close>

datatype 'a ctl = Goto 'a | Return 'a | Fault fault

subsection \<open>Character classes and the stack accessors\<close>

definition is_ws :: "char \<Rightarrow> bool" where
  "is_ws c = (c = CHR '' '' \<or> c = CHR 0x0D \<or> c = CHR 0x0A \<or> c = CHR 0x09)"

fun current_state :: "state list \<Rightarrow> state" where
  "current_state (s # stk) = s"
| "current_state [] = end'"

definition push_state :: "state \<Rightarrow> state list \<Rightarrow> state list" where
  "push_state st stk = st # stk"

text \<open>
  \<^verbatim>\<open>pop_state\<close> and \<^verbatim>\<open>replace_state\<close> assert a non-empty stack. Every call of them
  in \<^verbatim>\<open>write\<close> stands in a case of the switch other than \<^verbatim>\<open>state::end\<close>, where the
  stack is not empty (lemma \<open>current_state_not_end\<close>); the second equations are never
  used by \<open>dispatch\<close>.
\<close>

fun pop_state :: "state list \<Rightarrow> state list" where
  "pop_state (s # stk) = stk"
| "pop_state [] = []"

fun replace_state :: "state \<Rightarrow> state list \<Rightarrow> state list" where
  "replace_state st (s # stk) = st # stk"
| "replace_state st [] = []"

subsection \<open>The switch of write\<close>

text \<open>A call \<^verbatim>\<open>impl().cb(ec)\<close>.\<close>

definition notify :: "'s derived \<Rightarrow> callback \<Rightarrow> 's frame \<Rightarrow> 's frame" where
  "notify D cb c =
     (case D cb (ec c) (sink c) of
        (e, s) \<Rightarrow> c\<lparr>ec := e, sink := s, calls := calls c @ [cb]\<rparr>)"

text \<open>
  One slow-path state of a literal: suspend when the buffer is used up, fail on a byte
  other than \<open>ch\<close>, else consume it and store the next state. The source then falls
  through into the case of that next state, which is the case \<^verbatim>\<open>goto loop\<close> selects.
\<close>

definition expect :: "char \<Rightarrow> state \<Rightarrow> 's frame \<Rightarrow> 's frame ctl" where
  "expect ch nxt c =
     (case unread c of
        [] \<Rightarrow> Return c
      | x # xs \<Rightarrow>
          if x \<noteq> ch then Return (c\<lparr>ec := syntax'\<rparr>)
          else Goto (c\<lparr>unread := xs, st_stack := replace_state nxt (st_stack c)\<rparr>))"

text \<open>The last state of a literal: call the sink, return on its error, else pop.\<close>

definition finish_literal :: "'s derived \<Rightarrow> callback \<Rightarrow> 's frame \<Rightarrow> 's frame ctl" where
  "finish_literal D cb c =
     (let c' = notify D cb c
      in if ec c' \<noteq> no_error then Return c'
         else Goto (c'\<lparr>st_stack := pop_state (st_stack c')\<rparr>))"

text \<open>
  One pass through \<^verbatim>\<open>switch(current_state())\<close>, from the label \<^verbatim>\<open>loop\<close> to the next
  \<^verbatim>\<open>goto loop\<close> (\<open>Goto\<close>) or to the end of the function by \<^verbatim>\<open>break\<close> or
  \<^verbatim>\<open>return\<close> (\<open>Return\<close>). The \<^verbatim>\<open>while\<close> of \<^verbatim>\<open>state::ws\<close> is \<open>dropWhile\<close>.
  In \<^verbatim>\<open>state::value\<close> the cases \<^verbatim>\<open>'['\<close> and \<^verbatim>\<open>'"'\<close> do not test \<^verbatim>\<open>ec\<close> before
  \<^verbatim>\<open>goto loop\<close>, and the fast path of \<^verbatim>\<open>false\<close> advances by 4. \<^verbatim>\<open>state::members\<close>
  reads \<^verbatim>\<open>*p\<close> without comparing \<^verbatim>\<open>p\<close> with \<^verbatim>\<open>p1\<close>.
\<close>

fun dispatch :: "'s derived \<Rightarrow> state \<Rightarrow> 's frame \<Rightarrow> 's frame ctl" where
  "dispatch D json c = Goto (c\<lparr>st_stack := replace_state element (st_stack c)\<rparr>)"
| "dispatch D element c =
     Goto (c\<lparr>st_stack :=
       push_state ws (push_state value' (replace_state ws (st_stack c)))\<rparr>)"
| "dispatch D ws c =
     (let r = dropWhile is_ws (unread c)
      in if r = [] then Return (c\<lparr>unread := []\<rparr>)
         else Goto (c\<lparr>unread := r, st_stack := pop_state (st_stack c)\<rparr>))"
| "dispatch D value' c =
     (case unread c of
        [] \<Rightarrow> Return c
      | x # xs \<Rightarrow>
          if x = CHR ''{'' then
            (let c' = notify D on_object_begin
                        (c\<lparr>unread := xs, st_stack := replace_state object (st_stack c)\<rparr>)
             in if ec c' \<noteq> no_error then Return c' else Goto c')
          else if x = CHR ''['' then
            Goto (notify D on_array_begin
                    (c\<lparr>unread := xs, st_stack := replace_state array' (st_stack c)\<rparr>))
          else if x = CHR 0x22 then
            Goto (notify D on_string_begin
                    (c\<lparr>unread := xs, st_stack := replace_state string' (st_stack c)\<rparr>))
          else if x \<in> set ''0123456789'' then
            Goto (c\<lparr>unread := xs, st_stack := replace_state number (st_stack c)\<rparr>)
          else if x = CHR ''t'' then
            (if 4 \<le> length (unread c) then
               (if unread c ! 1 \<noteq> CHR ''r'' \<or> unread c ! 2 \<noteq> CHR ''u''
                   \<or> unread c ! 3 \<noteq> CHR ''e''
                then Return (c\<lparr>ec := syntax'\<rparr>)
                else Goto (c\<lparr>unread := drop 4 (unread c),
                             st_stack := replace_state true_4 (st_stack c)\<rparr>))
             else Goto (c\<lparr>unread := xs, st_stack := replace_state true_1 (st_stack c)\<rparr>))
          else if x = CHR ''f'' then
            (if 5 \<le> length (unread c) then
               (if unread c ! 1 \<noteq> CHR ''a'' \<or> unread c ! 2 \<noteq> CHR ''l''
                   \<or> unread c ! 3 \<noteq> CHR ''s'' \<or> unread c ! 4 \<noteq> CHR ''e''
                then Return (c\<lparr>ec := syntax'\<rparr>)
                else Goto (c\<lparr>unread := drop 4 (unread c),
                             st_stack := replace_state false_5 (st_stack c)\<rparr>))
             else Goto (c\<lparr>unread := xs, st_stack := replace_state false_1 (st_stack c)\<rparr>))
          else if x = CHR ''n'' then
            (if 4 \<le> length (unread c) then
               (if unread c ! 1 \<noteq> CHR ''u'' \<or> unread c ! 2 \<noteq> CHR ''l''
                   \<or> unread c ! 3 \<noteq> CHR ''l''
                then Return (c\<lparr>ec := syntax'\<rparr>)
                else Goto (c\<lparr>unread := drop 4 (unread c),
                             st_stack := replace_state null_4 (st_stack c)\<rparr>))
             else Goto (c\<lparr>unread := xs, st_stack := replace_state null_1 (st_stack c)\<rparr>))
          else Return (c\<lparr>ec := syntax'\<rparr>))"
| "dispatch D object c =
     (case unread c of
        [] \<Rightarrow> Return c
      | x # xs \<Rightarrow>
          if is_ws x then
            Goto (c\<lparr>unread := xs, st_stack := push_state ws (st_stack c)\<rparr>)
          else if x = CHR ''}'' then
            (let c' = notify D on_object_end (c\<lparr>unread := xs\<rparr>)
             in if ec c' \<noteq> no_error then Return c'
                else Goto (c'\<lparr>st_stack := pop_state (st_stack c')\<rparr>))
          else Goto (c\<lparr>st_stack := replace_state member' (st_stack c)\<rparr>))"
| "dispatch D member' c =
     Goto (c\<lparr>st_stack :=
       push_state string' (push_state ws (push_state colon (push_state element
         (replace_state members (st_stack c)))))\<rparr>)"
| "dispatch D members c =
     (case unread c of
        [] \<Rightarrow> Fault read_past_end
      | x # xs \<Rightarrow>
          if x \<noteq> CHR ''}'' then Return c
          else Return (notify D on_object_end (c\<lparr>unread := xs\<rparr>)))"
| "dispatch D colon c =
     (case unread c of
        [] \<Rightarrow> Return c
      | x # xs \<Rightarrow>
          if x \<noteq> CHR '':'' then Return (c\<lparr>ec := syntax'\<rparr>)
          else Goto (c\<lparr>unread := xs, st_stack := pop_state (st_stack c)\<rparr>))"
| "dispatch D array' c = Return c"
| "dispatch D string' c = Return c"
| "dispatch D number c = Return c"
| "dispatch D true_1 c = expect CHR ''r'' true_2 c"
| "dispatch D true_2 c = expect CHR ''u'' true_3 c"
| "dispatch D true_3 c = expect CHR ''e'' true_4 c"
| "dispatch D true_4 c = finish_literal D on_true c"
| "dispatch D false_1 c = expect CHR ''a'' false_2 c"
| "dispatch D false_2 c = expect CHR ''l'' false_3 c"
| "dispatch D false_3 c = expect CHR ''s'' false_4 c"
| "dispatch D false_4 c = expect CHR ''e'' false_5 c"
| "dispatch D false_5 c = finish_literal D on_false c"
| "dispatch D null_1 c = expect CHR ''u'' null_2 c"
| "dispatch D null_2 c = expect CHR ''l'' null_3 c"
| "dispatch D null_3 c = expect CHR ''l'' null_4 c"
| "dispatch D null_4 c = finish_literal D on_null c"
| "dispatch D end' c = Return c"

definition step :: "'s derived \<Rightarrow> 's frame \<Rightarrow> 's frame ctl" where
  "step D c = dispatch D (current_state (st_stack c)) c"

subsection \<open>The loop of write\<close>

text \<open>
  \<^verbatim>\<open>goto loop\<close> makes \<^verbatim>\<open>write\<close> a loop. It ends: a pass that jumps back either
  consumes a byte or lowers the weight of the stack, where a state weighs more than
  the states it is replaced by.
\<close>

fun weight :: "state \<Rightarrow> nat" where
  "weight json = 6"
| "weight element = 4"
| "weight object = 12"
| "weight member' = 11"
| "weight s = 1"

definition stack_weight :: "state list \<Rightarrow> nat" where
  "stack_weight stk = sum_list (map weight stk)"

definition decreases :: "'s frame \<Rightarrow> 's frame ctl \<Rightarrow> bool" where
  "decreases c k =
     (case k of
        Goto c' \<Rightarrow>
          length (unread c') < length (unread c) \<or>
          length (unread c') = length (unread c) \<and>
            stack_weight (st_stack c') < stack_weight (st_stack c)
      | _ \<Rightarrow> True)"

lemma notify_simps [simp]:
  "st_stack (notify D cb c) = st_stack c"
  "unread (notify D cb c) = unread c"
  "calls (notify D cb c) = calls c @ [cb]"
  by (simp_all add: notify_def split: prod.split)

lemma length_dropWhile_cases:
  "length (dropWhile P xs) < length xs \<or> length (dropWhile P xs) = length xs"
  using length_dropWhile_le [of P xs] by arith

lemma dispatch_decreases:
  "st_stack c = s # stk \<Longrightarrow> decreases c (dispatch D s c)"
  by (cases s)
     (simp_all add: decreases_def expect_def finish_literal_def push_state_def
          stack_weight_def Let_def le_imp_less_Suc length_dropWhile_le
          length_dropWhile_cases
          split: list.split)

lemma step_Goto_decreases:
  assumes "step D c = Goto c'"
  shows "length (unread c') < length (unread c) \<or>
          length (unread c') = length (unread c) \<and>
            stack_weight (st_stack c') < stack_weight (st_stack c)"
proof (cases "st_stack c")
  case Nil
  with assms show ?thesis by (simp add: step_def)
next
  case (Cons s stk)
  from dispatch_decreases [OF this, of D] assms Cons show ?thesis
    by (simp add: step_def decreases_def)
qed

function loop :: "'s derived \<Rightarrow> 's frame \<Rightarrow> fault + 's frame" where
  "loop D c =
     (case step D c of
        Goto c' \<Rightarrow> loop D c'
      | Return c' \<Rightarrow> Inr c'
      | Fault f \<Rightarrow> Inl f)"
  by pat_completeness auto
termination
proof (relation
    "measures [\<lambda>(D, c). length (unread c), \<lambda>(D, c). stack_weight (st_stack c)]")
  show "wf (measures [\<lambda>(D, c). length (unread c),
                      \<lambda>(D :: 's derived, c). stack_weight (st_stack c)])"
    by simp
next
  fix D :: "'s derived" and c c' :: "'s frame"
  assume "step D c = Goto c'"
  from step_Goto_decreases [OF this]
  show "((D, c'), (D, c)) \<in>
          measures [\<lambda>(D, c). length (unread c), \<lambda>(D, c). stack_weight (st_stack c)]"
    by auto
qed

declare loop.simps [simp del]

subsection \<open>The member functions\<close>

text \<open>The constructor pushes \<^verbatim>\<open>state::json\<close>; no callback has been made.\<close>

definition basic_parser :: "'s \<Rightarrow> 's frame" where
  "basic_parser s =
     \<lparr>st_stack = push_state json [], unread = [], ec = no_error, sink = s, calls = []\<rparr>"

text \<open>
  \<^verbatim>\<open>write(const_buffer, error_code&)\<close>: the cursor is set to the buffer, the error
  slot is cleared, \<^verbatim>\<open>BOOST_ASSERT(current_state() != state::end)\<close> is checked, and the
  loop runs. The macro is defined outside this file and compiles to nothing in a
  release build: \<open>asserts\<close> says whether it is compiled in.
\<close>

definition write_buffer ::
    "bool \<Rightarrow> 's derived \<Rightarrow> 's frame \<Rightarrow> string \<Rightarrow> fault + 's frame" where
  "write_buffer asserts D c buffer =
     (let c0 = c\<lparr>unread := buffer, ec := no_error\<rparr>
      in if asserts \<and> current_state (st_stack c0) = end' then Inl assertion_failed
         else loop D c0)"

text \<open>
  \<^verbatim>\<open>write(ConstBufferSequence const&, error_code&)\<close>: one \<^verbatim>\<open>write\<close> for each buffer,
  in order, returning at the first error.
\<close>

fun write_buffers ::
    "bool \<Rightarrow> 's derived \<Rightarrow> 's frame \<Rightarrow> string list \<Rightarrow> fault + 's frame" where
  "write_buffers asserts D c [] = Inr c"
| "write_buffers asserts D c (b # bs) =
     (case write_buffer asserts D c b of
        Inl f \<Rightarrow> Inl f
      | Inr c' \<Rightarrow> if ec c' \<noteq> no_error then Inr c' else write_buffers asserts D c' bs)"

definition write_eof :: "'s frame \<Rightarrow> 's frame" where
  "write_eof c =
     (case current_state (st_stack c) of
        ws \<Rightarrow> c\<lparr>ec := no_error\<rparr>
      | end' \<Rightarrow> c\<lparr>ec := no_error\<rparr>
      | _ \<Rightarrow> c\<lparr>ec := syntax'\<rparr>)"

text \<open>
  A whole parse as a caller runs it: a fresh parser, the chunks in order, and
  \<^verbatim>\<open>write_eof\<close> once every chunk was taken without error.
\<close>

definition parse_chunks ::
    "bool \<Rightarrow> 's derived \<Rightarrow> 's \<Rightarrow> string list \<Rightarrow> fault + 's frame" where
  "parse_chunks asserts D s bufs =
     (case write_buffers asserts D (basic_parser s) bufs of
        Inl f \<Rightarrow> Inl f
      | Inr c \<Rightarrow> if ec c \<noteq> no_error then Inr c else Inr (write_eof c))"

text \<open>Two sinks for concrete runs: one that never fails, one that fails in one callback.\<close>

definition quiet :: "unit derived" where
  "quiet cb e s = (e, s)"

definition failing :: "callback \<Rightarrow> unit derived" where
  "failing bad cb e s = (if cb = bad then sink_error 1 else e, s)"

subsection \<open>Notions used in the proofs\<close>

inductive passes :: "'s derived \<Rightarrow> 's frame \<Rightarrow> 's frame \<Rightarrow> bool" for D where
  passes_refl: "passes D c c"
| passes_step: "passes D c c1 \<Longrightarrow> step D c1 = Goto c2 \<Longrightarrow> passes D c c2"

text \<open>
  \<open>passes D c c1\<close>: the loop started in frame \<open>c\<close> comes to the label \<^verbatim>\<open>loop\<close> in
  frame \<open>c1\<close>.
\<close>

text \<open>\<open>app r c\<close> is the frame \<open>c\<close> with the bytes \<open>r\<close> added behind its unread bytes.\<close>

definition app :: "string \<Rightarrow> 's frame \<Rightarrow> 's frame" where
  "app r c = c\<lparr>unread := unread c @ r\<rparr>"










text \<open>
  The call \<^verbatim>\<open>impl().cb(ec)\<close> that the case of a state makes on the bytes it sees, with
  the frame at the moment of the call: the statements of the case before the call have
  run (\<^verbatim>\<open>++p\<close>, \<^verbatim>\<open>replace_state\<close>), those after it have not.
\<close>

fun call_site :: "state \<Rightarrow> 's frame \<Rightarrow> (callback \<times> 's frame) option" where
  "call_site value' c =
     (case unread c of
        [] \<Rightarrow> None
      | x # xs \<Rightarrow>
          if x = CHR ''{'' then
            Some (on_object_begin,
                  c\<lparr>unread := xs, st_stack := replace_state object (st_stack c)\<rparr>)
          else if x = CHR ''['' then
            Some (on_array_begin,
                  c\<lparr>unread := xs, st_stack := replace_state array' (st_stack c)\<rparr>)
          else if x = CHR 0x22 then
            Some (on_string_begin,
                  c\<lparr>unread := xs, st_stack := replace_state string' (st_stack c)\<rparr>)
          else None)"
| "call_site object c =
     (case unread c of
        [] \<Rightarrow> None
      | x # xs \<Rightarrow>
          if is_ws x then None
          else if x = CHR ''}'' then Some (on_object_end, c\<lparr>unread := xs\<rparr>)
          else None)"
| "call_site members c =
     (case unread c of
        [] \<Rightarrow> None
      | x # xs \<Rightarrow> if x \<noteq> CHR ''}'' then None else Some (on_object_end, c\<lparr>unread := xs\<rparr>))"
| "call_site true_4 c = Some (on_true, c)"
| "call_site false_5 c = Some (on_false, c)"
| "call_site null_4 c = Some (on_null, c)"
| "call_site s c = None"


section \<open>Running the loop\<close>

lemma current_state_not_end:
  "current_state stk \<noteq> end' \<Longrightarrow> stk \<noteq> []"
  by (cases stk) simp_all

lemma loop_Goto: "step D c = Goto c' \<Longrightarrow> loop D c = loop D c'"
  by (subst loop.simps) simp

lemma loop_Return: "step D c = Return c' \<Longrightarrow> loop D c = Inr c'"
  by (subst loop.simps) simp


lemma loop_passes: "passes D c c1 \<Longrightarrow> loop D c = loop D c1"
  by (induction rule: passes.induct) (simp_all add: loop_Goto)

lemma passes_end:
  "passes D c c1 \<Longrightarrow> current_state (st_stack c) = end' \<Longrightarrow> c1 = c"
  by (induction rule: passes.induct) (simp_all add: step_def)

lemmas run_simps = parse_chunks_def write_buffer_def basic_parser_def push_state_def
  loop.simps step_def is_ws_def write_eof_def expect_def finish_literal_def

section \<open>The literal fast path\<close>

text \<open>
  Claim C2 says that the fast path of each literal moves the cursor past the whole
  literal, five bytes for \<^verbatim>\<open>false\<close>. The code adds 4 to \<^verbatim>\<open>p\<close> for \<^verbatim>\<open>false\<close> as
  it does for \<^verbatim>\<open>true\<close> and \<^verbatim>\<open>null\<close>: whenever the unread bytes start with
  \<^verbatim>\<open>false\<close>, the pass stores \<^verbatim>\<open>false_5\<close> and leaves the final \<^verbatim>\<open>e\<close> unread.
\<close>

theorem false_fast_path_advances_by_four:
  "dispatch D value' (c\<lparr>unread := ''false'' @ rest\<rparr>) =
     Goto (c\<lparr>unread := CHR ''e'' # rest, st_stack := replace_state false_5 (st_stack c)\<rparr>)"
  by simp

section \<open>Value dispatch\<close>

text \<open>
  Claim C3 says that a digit starts a number without being consumed. The code consumes
  it: on the one byte \<^verbatim>\<open>7\<close> the pass stores \<^verbatim>\<open>number\<close> and leaves nothing unread.
\<close>

theorem digit_is_consumed:
  "step quiet
      \<lparr>st_stack = [value', ws], unread = ''7'', ec = no_error, sink = (), calls = []\<rparr> =
     Goto \<lparr>st_stack = [number, ws], unread = [], ec = no_error, sink = (), calls = []\<rparr>"
  by (simp add: step_def)

text \<open>
  Claim C3 as amended: in \<^verbatim>\<open>state::value\<close>, with no byte left the pass returns and
  changes nothing; a digit is consumed and \<^verbatim>\<open>number\<close> replaces \<^verbatim>\<open>value\<close>; a byte
  that is none of \<^verbatim>\<open>{ [ " - t f n\<close> and no digit sets \<^verbatim>\<open>error::syntax\<close> and is
  not consumed. (Nothing is said about \<^verbatim>\<open>-\<close>.)
\<close>

theorem value_dispatch:
  "dispatch D value' (c\<lparr>unread := []\<rparr>) = Return (c\<lparr>unread := []\<rparr>) \<and>
   (x \<in> set ''0123456789'' \<longrightarrow>
      dispatch D value' (c\<lparr>unread := x # xs\<rparr>) =
        Goto (c\<lparr>unread := xs, st_stack := replace_state number (st_stack c)\<rparr>)) \<and>
   (x \<notin> set [CHR ''{'', CHR ''['', CHR 0x22, CHR ''-'', CHR ''t'', CHR ''f'', CHR ''n''] \<and>
    x \<notin> set ''0123456789'' \<longrightarrow>
      dispatch D value' (c\<lparr>unread := x # xs\<rparr>) =
        Return (c\<lparr>unread := x # xs, ec := syntax'\<rparr>))"
  by auto

theorem value_dispatch_witness:
  "dispatch quiet value'
      \<lparr>st_stack = [value', ws], unread = ''7,'', ec = no_error, sink = (), calls = []\<rparr> =
     Goto \<lparr>st_stack = [number, ws], unread = '','', ec = no_error, sink = (), calls = []\<rparr> \<and>
   dispatch quiet value'
      \<lparr>st_stack = [value', ws], unread = ''x'', ec = no_error, sink = (), calls = []\<rparr> =
     Return \<lparr>st_stack = [value', ws], unread = ''x'', ec = syntax', sink = (), calls = []\<rparr>"
  using
    value_dispatch [where D = quiet and x = "CHR ''7''" and xs = "'',''" and
      c = "\<lparr>st_stack = [value', ws], unread = [], ec = no_error, sink = (), calls = []\<rparr>"]
    value_dispatch [where D = quiet and x = "CHR ''x''" and xs = "[]" and
      c = "\<lparr>st_stack = [value', ws], unread = [], ec = no_error, sink = (), calls = []\<rparr>"]
  by simp

section \<open>Empty containers\<close>

text \<open>
  Claim C5 says that \<^verbatim>\<open>[]\<close> yields \<^verbatim>\<open>on_array_begin\<close> and then
  \<^verbatim>\<open>on_array_end\<close>. The code never calls \<^verbatim>\<open>on_array_end\<close>: \<^verbatim>\<open>state::array_\<close>
  only breaks, the bracket stays unread and \<^verbatim>\<open>write_eof\<close> reports a syntax error.
\<close>

theorem array_end_is_never_called:
  "parse_chunks True quiet () [''[]''] =
     Inr \<lparr>st_stack = [array', ws], unread = '']'', ec = syntax', sink = (),
          calls = [on_array_begin]\<rparr>"
  by (simp add: run_simps notify_def quiet_def)

text \<open>
  Claim C5 as amended: when the two object callbacks report no error, \<^verbatim>\<open>{}\<close> yields
  exactly \<^verbatim>\<open>on_object_begin\<close> followed by \<^verbatim>\<open>on_object_end\<close> and is accepted;
  \<^verbatim>\<open>[]\<close> yields \<^verbatim>\<open>on_array_begin\<close> alone and leaves the parser in
  \<^verbatim>\<open>state::array_\<close> before the closing bracket.
\<close>

theorem empty_containers:
  assumes "D on_object_begin no_error s = (no_error, s1)"
      and "D on_object_end no_error s1 = (no_error, s2)"
  shows "parse_chunks asserts D s [''{}''] =
           Inr \<lparr>st_stack = [ws], unread = [], ec = no_error, sink = s2,
                calls = [on_object_begin, on_object_end]\<rparr> \<and>
         (case parse_chunks asserts D s [''[]''] of
            Inr c \<Rightarrow>
              calls c = [on_array_begin] \<and> st_stack c = [array', ws] \<and> unread c = '']''
          | Inl f \<Rightarrow> False)"
  using assms by (simp add: run_simps notify_def split: prod.split)

theorem empty_containers_witness:
  "parse_chunks True quiet () [''{}''] =
     Inr \<lparr>st_stack = [ws], unread = [], ec = no_error, sink = (),
          calls = [on_object_begin, on_object_end]\<rparr> \<and>
   (case parse_chunks True quiet () [''[]''] of
      Inr c \<Rightarrow>
        calls c = [on_array_begin] \<and> st_stack c = [array', ws] \<and> unread c = '']''
    | Inl f \<Rightarrow> False)"
  using empty_containers [where D = quiet and s = "()" and ?s1.0 = "()" and ?s2.0 = "()"
      and asserts = True]
  by (simp add: quiet_def)

section \<open>Numbers\<close>

text \<open>
  Claim C7 says that \<^verbatim>\<open>0\<close> is accepted. \<^verbatim>\<open>state::number\<close> only breaks, so the
  parser is still in it when \<^verbatim>\<open>write_eof\<close> is called, which reports a syntax error.
\<close>

theorem zero_is_rejected:
  "parse_chunks True quiet () [''0''] =
     Inr \<lparr>st_stack = [number, ws], unread = [], ec = syntax', sink = (), calls = []\<rparr>"
  by (simp add: run_simps)

text \<open>
  Claim C7 as amended: each of the inputs \<^verbatim>\<open>01\<close>, \<^verbatim>\<open>0\<close> and \<^verbatim>\<open>0.5\<close>, fed whole
  and then finished, ends in a syntax error reported by \<^verbatim>\<open>write_eof\<close>, with the
  parser in \<^verbatim>\<open>state::number\<close> after the first digit.
\<close>

theorem numbers_never_complete:
  "parse_chunks asserts D s [''01''] =
     Inr \<lparr>st_stack = [number, ws], unread = ''1'', ec = syntax', sink = s, calls = []\<rparr> \<and>
   parse_chunks asserts D s [''0''] =
     Inr \<lparr>st_stack = [number, ws], unread = [], ec = syntax', sink = s, calls = []\<rparr> \<and>
   parse_chunks asserts D s [''0.5''] =
     Inr \<lparr>st_stack = [number, ws], unread = ''.5'', ec = syntax', sink = s, calls = []\<rparr>"
  by (simp add: run_simps)

section \<open>End of input\<close>

text \<open>
  Claim C8: \<^verbatim>\<open>write_eof\<close> reports no error exactly when the current state is
  \<^verbatim>\<open>ws\<close> or \<^verbatim>\<open>end\<close> (the state of the empty stack), reports \<^verbatim>\<open>error::syntax\<close>
  in every other state, and leaves the stack as it is.
\<close>

theorem write_eof_result:
  "write_eof c =
     c\<lparr>ec := (if current_state (st_stack c) = ws \<or> current_state (st_stack c) = end'
              then no_error else syntax')\<rparr> \<and>
   st_stack (write_eof c) = st_stack c \<and>
   current_state [] = end'"
  by (cases "current_state (st_stack c)") (simp_all add: write_eof_def)

section \<open>Chunking\<close>


lemma app_simps [simp]:
  "st_stack (app r c) = st_stack c"
  "unread (app r c) = unread c @ r"
  "ec (app r c) = ec c"
  "sink (app r c) = sink c"
  "calls (app r c) = calls c"
  by (simp_all add: app_def)

subsection \<open>Lockstep\<close>












subsection \<open>What a pass keeps\<close>







subsection \<open>Starved passes\<close>





subsection \<open>A literal cut by the end of the chunk\<close>















subsection \<open>Cutting a chunk in two\<close>







subsection \<open>A sequence of chunks\<close>






section \<open>Reachable frames\<close>







section \<open>The members continuation\<close>







section \<open>Errors of the sink\<close>

text \<open>
  Every callback of a pass is the one of \<open>call_site\<close>. When it leaves the error slot
  set, the pass ends with the frame as the callback returned it, and a pass that jumps
  back to \<^verbatim>\<open>loop\<close> (the cases \<^verbatim>\<open>'['\<close> and \<^verbatim>\<open>'"'\<close>) comes to a case that only breaks.
\<close>

lemma dispatch_call_site:
  "st_stack c = s # stk \<Longrightarrow>
   (case dispatch D s c of
      Goto c' \<Rightarrow>
        (case call_site s c of
           None \<Rightarrow> calls c' = calls c
         | Some (cb, f) \<Rightarrow>
             calls c' = calls c @ [cb] \<and>
             (ec (notify D cb f) \<noteq> no_error \<longrightarrow>
                c' = notify D cb f \<and>
                dispatch D (current_state (st_stack c')) c' = Return c'))
    | Return c' \<Rightarrow>
        (case call_site s c of
           None \<Rightarrow> calls c' = calls c
         | Some (cb, f) \<Rightarrow>
             calls c' = calls c @ [cb] \<and>
             (ec (notify D cb f) \<noteq> no_error \<longrightarrow> c' = notify D cb f))
    | Fault f \<Rightarrow> True)"
  by (cases s)
     (simp_all add: expect_def finish_literal_def push_state_def Let_def split: list.split)

text \<open>
  Claim C6: let \<^verbatim>\<open>write\<close> on \<open>buffer\<close> come to the label \<^verbatim>\<open>loop\<close> in frame \<open>c\<close>, and
  let the pass from there call the sink. Then the call is \<open>cb\<close> on the frame \<open>f\<close> of
  \<open>call_site\<close>, and if \<open>cb\<close> leaves the error slot set, \<^verbatim>\<open>write\<close> returns
  \<open>notify D cb f\<close>: the error, the sink and the record of calls as \<open>cb\<close> left them, and
  the cursor and the stack of \<open>f\<close>, as they were when \<open>cb\<close> was called.
\<close>

theorem sink_error_ends_write:
  assumes "passes D (p\<lparr>unread := buffer, ec := no_error\<rparr>) c"
      and "step D c = Goto c' \<or> step D c = Return c'"
      and "calls c' \<noteq> calls c"
  shows "\<exists>cb f. call_site (current_state (st_stack c)) c = Some (cb, f) \<and>
           calls c' = calls c @ [cb] \<and>
           (ec (notify D cb f) \<noteq> no_error \<longrightarrow>
              write_buffer asserts D p buffer = Inr (notify D cb f))"
proof -
  let ?c0 = "p\<lparr>unread := buffer, ec := no_error\<rparr>"
  have ne: "current_state (st_stack c) \<noteq> end'"
    using assms(2,3) by (auto simp: step_def)
  then obtain s stk where s: "st_stack c = s # stk"
    by (cases "st_stack c") auto
  have "current_state (st_stack ?c0) \<noteq> end'"
    using passes_end [OF assms(1)] ne by auto
  then have w: "write_buffer asserts D p buffer = loop D c"
    using loop_passes [OF assms(1)] by (simp add: write_buffer_def)
  from dispatch_call_site [OF s, of D] assms(2,3) s
  obtain cb f where site: "call_site s c = Some (cb, f)" and cs: "calls c' = calls c @ [cb]"
    by (cases "call_site s c") (auto simp: step_def)
  have "loop D c = Inr (notify D cb f)" if bad: "ec (notify D cb f) \<noteq> no_error"
    using assms(2)
  proof
    assume g: "step D c = Goto c'"
    with dispatch_call_site [OF s, of D] site bad s
    have "c' = notify D cb f" "step D c' = Return c'" by (auto simp: step_def)
    with g show ?thesis by (simp add: loop_Goto loop_Return)
  next
    assume r: "step D c = Return c'"
    with dispatch_call_site [OF s, of D] site bad s
    have "c' = notify D cb f" by (auto simp: step_def)
    with r show ?thesis by (simp add: loop_Return)
  qed
  with site cs w s show ?thesis by simp
qed

theorem sink_error_ends_write_witness:
  "write_buffer True (failing on_array_begin) (basic_parser ()) ''[1'' =
     Inr \<lparr>st_stack = [array', ws], unread = ''1'', ec = sink_error 1, sink = (),
          calls = [on_array_begin]\<rparr> \<and>
   write_buffer True (failing on_object_begin) (basic_parser ()) ''{}x'' =
     Inr \<lparr>st_stack = [object, ws], unread = ''}x'', ec = sink_error 1, sink = (),
          calls = [on_object_begin]\<rparr>"
proof -
  let ?A = "failing on_array_begin"
  let ?a0 = "(basic_parser ())\<lparr>unread := ''[1'', ec := no_error\<rparr>"
  let ?a3 =
    "\<lparr>st_stack = [value', ws], unread = ''[1'', ec = no_error, sink = (), calls = []\<rparr>"
  let ?a4 =
    "\<lparr>st_stack = [array', ws], unread = ''1'', ec = sink_error 1, sink = (),
      calls = [on_array_begin]\<rparr>"
  have "passes ?A ?a0 ?a0" by (rule passes_refl)
  then have "passes ?A ?a0 (?a0\<lparr>st_stack := [element]\<rparr>)"
    by (rule passes_step) (simp add: run_simps)
  then have "passes ?A ?a0 (?a0\<lparr>st_stack := [ws, value', ws]\<rparr>)"
    by (rule passes_step) (simp add: run_simps)
  then have pa: "passes ?A ?a0 ?a3"
    by (rule passes_step) (simp add: run_simps)
  have sa: "step ?A ?a3 = Goto ?a4"
    by (simp add: run_simps notify_def failing_def)
  let ?O = "failing on_object_begin"
  let ?o0 = "(basic_parser ())\<lparr>unread := ''{}x'', ec := no_error\<rparr>"
  let ?o3 =
    "\<lparr>st_stack = [value', ws], unread = ''{}x'', ec = no_error, sink = (), calls = []\<rparr>"
  let ?o4 =
    "\<lparr>st_stack = [object, ws], unread = ''}x'', ec = sink_error 1, sink = (),
      calls = [on_object_begin]\<rparr>"
  have "passes ?O ?o0 ?o0" by (rule passes_refl)
  then have "passes ?O ?o0 (?o0\<lparr>st_stack := [element]\<rparr>)"
    by (rule passes_step) (simp add: run_simps)
  then have "passes ?O ?o0 (?o0\<lparr>st_stack := [ws, value', ws]\<rparr>)"
    by (rule passes_step) (simp add: run_simps)
  then have po: "passes ?O ?o0 ?o3"
    by (rule passes_step) (simp add: run_simps)
  have so: "step ?O ?o3 = Return ?o4"
    by (simp add: run_simps notify_def failing_def)
  from sink_error_ends_write [where asserts = True, OF pa, of ?a4] sa
       sink_error_ends_write [where asserts = True, OF po, of ?o4] so
  show ?thesis by (simp add: notify_def failing_def)
qed


section \<open>Suspension\<close>

text \<open>
  The case of \<^verbatim>\<open>state::members\<close> reads \<^verbatim>\<open>*p\<close> without comparing \<^verbatim>\<open>p\<close> with
  \<^verbatim>\<open>p1\<close>; the state is never current in a reachable frame (see below).
\<close>

lemma members_case_has_no_guard:
  "dispatch D members (c\<lparr>unread := []\<rparr>) = Fault read_past_end"
  by simp








section \<open>The error slot\<close>

text \<open>
  Claim C10: \<^verbatim>\<open>write\<close> assigns no error to the slot before it looks at a byte. Its
  result does not depend on what the slot held, nor on where the cursor of an earlier
  call stood; on an empty chunk in \<^verbatim>\<open>state::ws\<close> it returns no error whatever the
  slot held; and a parser that has failed is not closed to input: after the syntax
  error on \<^verbatim>\<open>x\<close>, \<^verbatim>\<open>write\<close> on \<^verbatim>\<open>true\<close> parses the literal and calls
  \<^verbatim>\<open>on_true\<close> with the slot holding no error.
\<close>

theorem write_clears_error_slot:
  "write_buffer asserts D (c\<lparr>ec := e, unread := u\<rparr>) buffer =
     write_buffer asserts D c buffer \<and>
   write_buffer asserts D (c\<lparr>st_stack := ws # stk, ec := e\<rparr>) [] =
     Inr (c\<lparr>st_stack := ws # stk, unread := [], ec := no_error\<rparr>) \<and>
   write_buffer asserts D (basic_parser s) ''x'' =
     Inr \<lparr>st_stack = [value', ws], unread = ''x'', ec = syntax', sink = s, calls = []\<rparr> \<and>
   write_buffer asserts D
      \<lparr>st_stack = [value', ws], unread = ''x'', ec = syntax', sink = s, calls = []\<rparr> ''true'' =
     Inr (case D on_true no_error s of
            (e1, s1) \<Rightarrow>
              if e1 \<noteq> no_error
              then \<lparr>st_stack = [true_4, ws], unread = [], ec = e1, sink = s1,
                     calls = [on_true]\<rparr>
              else \<lparr>st_stack = [ws], unread = [], ec = no_error, sink = s1,
                     calls = [on_true]\<rparr>)"
  by (simp add: run_simps notify_def split: prod.split)

end
